theory Spec2Isabelle
  imports Main "HOL-Library.Word"
begin

unbundle bit_operations_syntax

section \<open>Data model of \<^verbatim>\<open>src/hooks/use-flasher.ts\<close>\<close>

text \<open>
  The hook keeps one \<^verbatim>\<open>FlasherState\<close> value (React state, replaced by functional
  updaters that run in the order they were queued) and two refs, \<^verbatim>\<open>portRef\<close> and
  \<^verbatim>\<open>readerRef\<close>. A \<^verbatim>\<open>Uint8Array\<close> is a list of 8-bit words, a length or byte count a
  natural number, the flash offset an integer (the component passes the result of
  \<^verbatim>\<open>parseInt(text, 16)\<close>; the non-numeric \<^verbatim>\<open>NaN\<close> is outside the model), a
  \<^verbatim>\<open>Date\<close> a natural number of milliseconds.
\<close>

type_synonym byte = "8 word"
type_synonym Uint8Array = "byte list"

record FlashProgress =
  current :: nat
  total :: nat
  percentage :: nat

datatype LogType = Info | Success | Error | Warning

record LogEntry =
  message :: string
  type :: LogType
  timestamp :: nat

record FlasherState =
  isConnected :: bool
  isFlashing :: bool
  progress :: FlashProgress
  logs :: "LogEntry list"
  error :: "string option"

text \<open>
  The two attributes of a \<^verbatim>\<open>SerialPort\<close> that the hook reads: its \<^verbatim>\<open>readable\<close> and
  \<^verbatim>\<open>writable\<close> streams are non-null exactly while the port is open.
\<close>

record SerialPort =
  readable :: bool
  writable :: bool

text \<open>
  The engine: the React state and the two refs. \<^verbatim>\<open>readerRef\<close> only records whether a
  reader is held.
\<close>

record engine =
  state :: FlasherState
  portRef :: "SerialPort option"
  readerRef :: bool

text \<open>
  A thrown value is an \<^verbatim>\<open>Error\<close> object with its message, or anything else; the
  \<^verbatim>\<open>catch\<close> blocks tell them apart with \<^verbatim>\<open>instanceof Error\<close>.
\<close>

datatype thrown = ErrorObj string | NonError

text \<open>
  The world outside the hook: the frames the transport has accepted (\<open>sent\<close>, oldest
  first), the outcomes of the coming \<^verbatim>\<open>writer.write\<close> calls (\<open>script\<close>: \<open>None\<close> the
  write resolves, \<open>Some err\<close> it rejects with \<open>err\<close>; once the script is used up every
  write resolves), and the clock that \<^verbatim>\<open>new Date()\<close> reads and \<^verbatim>\<open>setTimeout\<close> waits on.
\<close>

record world =
  sent :: "Uint8Array list"
  script :: "thrown option list"
  clock :: nat

definition ROM_LOADER_FLASH_BEGIN_CMD :: byte where
  "ROM_LOADER_FLASH_BEGIN_CMD = 0x02"

definition ROM_LOADER_FLASH_DATA_CMD :: byte where
  "ROM_LOADER_FLASH_DATA_CMD = 0x03"

definition ROM_LOADER_FLASH_END_CMD :: byte where
  "ROM_LOADER_FLASH_END_CMD = 0x04"

text \<open>The initial value given to \<^verbatim>\<open>useState\<close> and \<^verbatim>\<open>useRef\<close>.\<close>

definition initialState :: FlasherState where
  "initialState =
     \<lparr>isConnected = False, isFlashing = False,
      progress = \<lparr>current = 0, total = 0, percentage = 0\<rparr>,
      logs = [], error = None\<rparr>"

definition initialEngine :: engine where
  "initialEngine = \<lparr>state = initialState, portRef = None, readerRef = False\<rparr>"

section \<open>The log\<close>

text \<open>\<^verbatim>\<open>xs.slice(-n)\<close>: the last \<open>n\<close> elements, all of them when there are fewer.\<close>

definition slice_last :: "nat \<Rightarrow> 'a list \<Rightarrow> 'a list" where
  "slice_last n xs = drop (length xs - n) xs"

text \<open>
  The updater of \<^verbatim>\<open>addLog\<close>: append the entry, keep the last 100. The optional
  parameter \<^verbatim>\<open>type\<close> is an option, \<open>None\<close> when the caller omits it; \<open>now\<close> is what
  \<^verbatim>\<open>new Date()\<close> returns.
\<close>

definition logEntry :: "string \<Rightarrow> LogType option \<Rightarrow> nat \<Rightarrow> LogEntry" where
  "logEntry msg ty now =
     \<lparr>message = msg, type = (case ty of None \<Rightarrow> Info | Some t \<Rightarrow> t), timestamp = now\<rparr>"

definition addLogState :: "string \<Rightarrow> LogType option \<Rightarrow> nat \<Rightarrow> FlasherState \<Rightarrow> FlasherState" where
  "addLogState msg ty now prev =
     prev\<lparr>logs := slice_last 100 (logs prev @ [logEntry msg ty now])\<rparr>"

definition addLog :: "string \<Rightarrow> LogType option \<Rightarrow> engine \<Rightarrow> world \<Rightarrow> engine" where
  "addLog msg ty e w = e\<lparr>state := addLogState msg ty (clock w) (state e)\<rparr>"

definition clearLogs :: "engine \<Rightarrow> engine" where
  "clearLogs e = e\<lparr>state := (state e)\<lparr>logs := []\<rparr>\<rparr>"

section \<open>Numbers\<close>

text \<open>
  \<^verbatim>\<open>Number.prototype.toString(radix)\<close> on a non-negative integer, used by the template
  strings (radix 10) and by \<^verbatim>\<open>offset.toString(16)\<close>.
\<close>

definition digit_char :: "nat \<Rightarrow> char" where
  "digit_char d = ''0123456789abcdef'' ! d"

function toStringRadix :: "nat \<Rightarrow> nat \<Rightarrow> string" where
  "toStringRadix radix n =
     (if n < radix \<or> radix < 2 then [digit_char n]
      else toStringRadix radix (n div radix) @ [digit_char (n mod radix)])"
  by pat_completeness auto
termination
  by (relation "measure snd") auto

definition showNat :: "nat \<Rightarrow> string" where
  "showNat n = toStringRadix 10 n"

definition toString16 :: "int \<Rightarrow> string" where
  "toString16 x = (if x < 0 then ''-'' @ toStringRadix 16 (nat (- x)) else toStringRadix 16 (nat x))"

text \<open>
  \<^verbatim>\<open>(x >> k) & 0xff\<close>: \<^verbatim>\<open>>>\<close> converts its left operand to a signed 32-bit integer
  (\<^verbatim>\<open>ToInt32\<close>, the integer modulo \<open>2^32\<close>) and shifts it arithmetically; the mask keeps
  the low eight bits, which the \<^verbatim>\<open>Uint8Array\<close> stores. \<^verbatim>\<open>x & 0xff\<close> is the case
  \<open>k = 0\<close>.
\<close>

definition ToInt32 :: "int \<Rightarrow> 32 word" where
  "ToInt32 x = word_of_int x"

definition shr_and_ff :: "int \<Rightarrow> nat \<Rightarrow> byte" where
  "shr_and_ff x k = ucast (signed_drop_bit k (ToInt32 x) AND 0xff)"

subsection \<open>The percentage, in double precision\<close>

text \<open>
  \<^verbatim>\<open>Math.round((progress / fileData.length) * 100)\<close> is computed on IEEE 754 doubles:
  the quotient is rounded to the nearest double (ties to even), so is the product, and
  \<^verbatim>\<open>Math.round\<close> then takes the nearest integer, a tie going up. A positive double is
  a pair \<open>(m, e)\<close> standing for \<open>m * 2^e\<close>. The operands are positive integers below
  \<open>2^53\<close> here, so every value is in the normal range: no overflow, no subnormal.
\<close>

type_synonym double = "nat \<times> int"

function bit_length :: "nat \<Rightarrow> nat" where
  "bit_length n = (if n = 0 then 0 else Suc (bit_length (n div 2)))"
  by pat_completeness auto
termination
  by (relation "measure id") auto

text \<open>The fraction \<open>n / d\<close> times \<open>2^s\<close>.\<close>

definition scale2 :: "int \<Rightarrow> nat \<times> nat \<Rightarrow> nat \<times> nat" where
  "scale2 s f = (if 0 \<le> s then (fst f * 2 ^ nat s, snd f) else (fst f, snd f * 2 ^ nat (- s)))"

text \<open>The integer nearest to \<open>n / d\<close>, a tie going to the even one.\<close>

definition round_half_even :: "nat \<Rightarrow> nat \<Rightarrow> nat" where
  "round_half_even n d =
     (let q = n div d; r = n mod d in
      if 2 * r < d then q else if d < 2 * r then q + 1 else if even q then q else q + 1)"

text \<open>
  The double nearest to the positive fraction \<open>n / d\<close>: \<open>ex\<close> is the exponent with
  \<open>2^ex \<le> n / d < 2^(ex + 1)\<close>, and the significand keeps 53 bits.
\<close>

definition to_double :: "nat \<Rightarrow> nat \<Rightarrow> double" where
  "to_double n d =
     (let k = int (bit_length n) - int (bit_length d);
          f1 = scale2 (- k) (n, d);
          ex = (if snd f1 \<le> fst f1 then k else k - 1);
          f2 = scale2 (52 - ex) (n, d)
      in (round_half_even (fst f2) (snd f2), ex - 52))"

definition js_div :: "nat \<Rightarrow> nat \<Rightarrow> double" where
  "js_div a b = to_double a b"

definition js_times_100 :: "double \<Rightarrow> double" where
  "js_times_100 x =
     (let f = scale2 (snd x) (100 * fst x, 1) in to_double (fst f) (snd f))"

text \<open>\<^verbatim>\<open>Math.round\<close>: \<open>floor (x + 1/2)\<close>, computed exactly.\<close>

definition Math_round :: "double \<Rightarrow> nat" where
  "Math_round x =
     (let f = scale2 (snd x) (fst x, 1) in (2 * fst f + snd f) div (2 * snd f))"

text \<open>
  The loop calls this with \<open>0 < p \<le> len\<close> only. For \<open>len = 0\<close> JavaScript yields
  \<^verbatim>\<open>NaN\<close>; the loop body never runs then, and the model's value there is never read.
\<close>

definition js_percentage :: "nat \<Rightarrow> nat \<Rightarrow> nat" where
  "js_percentage p len =
     (if p = 0 \<or> len = 0 then 0 else Math_round (js_times_100 (js_div p len)))"

section \<open>Connection\<close>

text \<open>
  What the host does when \<^verbatim>\<open>connect\<close> runs: there is no \<^verbatim>\<open>navigator.serial\<close>, or
  \<^verbatim>\<open>requestPort\<close> rejects, or \<^verbatim>\<open>port.open\<close> rejects, or the port opens. The port that
  \<^verbatim>\<open>requestPort\<close> hands over is a closed one.
\<close>

datatype serial_host = NoSerial | RequestRejects thrown | OpenRejects thrown | Opens

definition connectFailed :: "thrown \<Rightarrow> engine \<Rightarrow> world \<Rightarrow> thrown option \<times> engine" where
  "connectFailed err e w =
     (let msg = (case err of ErrorObj m \<Rightarrow> m | NonError \<Rightarrow> ''Failed to connect'');
          e1 = e\<lparr>state := (state e)\<lparr>error := Some msg\<rparr>\<rparr>
      in (Some err, addLog (''Connection failed: '' @ msg) (Some Error) e1 w))"

text \<open>
  \<^verbatim>\<open>connect(baudRate = 115200)\<close>. \<^verbatim>\<open>portRef.current\<close> is assigned before
  \<^verbatim>\<open>port.open\<close> is awaited, so it stays assigned when the open fails.
\<close>

definition connect :: "nat option \<Rightarrow> serial_host \<Rightarrow> engine \<Rightarrow> world \<Rightarrow> thrown option \<times> engine" where
  "connect baud host e w =
     (let baudRate = (case baud of None \<Rightarrow> 115200 | Some b \<Rightarrow> b) in
      case host of
        NoSerial \<Rightarrow>
          connectFailed (ErrorObj ''Web Serial API not supported in this browser'') e w
      | RequestRejects err \<Rightarrow> connectFailed err e w
      | OpenRejects err \<Rightarrow>
          connectFailed err (e\<lparr>portRef := Some \<lparr>readable = False, writable = False\<rparr>\<rparr>) w
      | Opens \<Rightarrow>
          (let e1 = e\<lparr>portRef := Some \<lparr>readable = True, writable = True\<rparr>\<rparr>;
               e2 = e1\<lparr>state := (state e1)\<lparr>isConnected := True, error := None\<rparr>\<rparr>
           in (None,
               addLog (''Connected to device at '' @ showNat baudRate @ '' baud'')
                 (Some Success) e2 w)))"

text \<open>
  The hook's \<^verbatim>\<open>read\<close> is not exported and nothing calls it, so no reader is ever
  acquired: \<^verbatim>\<open>readerRef.current\<close> stays null, and the \<^verbatim>\<open>cancel()\<close> in
  \<^verbatim>\<open>disconnect\<close> is modelled as resolving.

  \<^verbatim>\<open>disconnect()\<close>: \<open>closes\<close> says whether \<^verbatim>\<open>port.close()\<close> resolves; a rejection is
  swallowed and leaves the port as it was. \<^verbatim>\<open>readerRef.current\<close> is reset to null,
  \<^verbatim>\<open>portRef.current\<close> is not.
\<close>

definition disconnect :: "bool \<Rightarrow> engine \<Rightarrow> world \<Rightarrow> engine" where
  "disconnect closes e w =
     (let e1 = (if readerRef e then e\<lparr>readerRef := False\<rparr> else e);
          e2 = (case portRef e1 of
                  None \<Rightarrow> e1
                | Some p \<Rightarrow>
                    if readable p \<and> closes
                    then e1\<lparr>portRef := Some \<lparr>readable = False, writable = False\<rparr>\<rparr>
                    else e1);
          e3 = e2\<lparr>state := (state e2)\<lparr>isConnected := False\<rparr>\<rparr>
      in addLog ''Disconnected from device'' (Some Info) e3 w)"

section \<open>Transport write\<close>

text \<open>
  \<^verbatim>\<open>write(data)\<close> (here \<open>write_bytes\<close>) throws when there is no port or the port has no writable stream;
  otherwise \<^verbatim>\<open>writer.write\<close> takes the next outcome of the script.
\<close>

definition write_bytes :: "Uint8Array \<Rightarrow> engine \<Rightarrow> world \<Rightarrow> thrown option \<times> world" where
  "write_bytes data e w =
     (case portRef e of
        None \<Rightarrow> (Some (ErrorObj ''Port not writable''), w)
      | Some p \<Rightarrow>
          if writable p then
            (case script w of
               [] \<Rightarrow> (None, w\<lparr>sent := sent w @ [data]\<rparr>)
             | None # rest \<Rightarrow> (None, w\<lparr>sent := sent w @ [data], script := rest\<rparr>)
             | Some err # rest \<Rightarrow> (Some err, w\<lparr>script := rest\<rparr>))
          else (Some (ErrorObj ''Port not writable''), w))"

text \<open>\<^verbatim>\<open>await new Promise((resolve) => setTimeout(resolve, ms))\<close>.\<close>

definition delay :: "nat \<Rightarrow> world \<Rightarrow> world" where
  "delay ms w = w\<lparr>clock := clock w + ms\<rparr>"

section \<open>Frames\<close>

text \<open>The three byte arrays that \<^verbatim>\<open>flashFirmware\<close> builds.\<close>

definition flashBegin :: "nat \<Rightarrow> int \<Rightarrow> Uint8Array" where
  "flashBegin len offset =
     [ROM_LOADER_FLASH_BEGIN_CMD, 0x00, 0x00, 0x00, 0x00, 0x00, 0x00, 0x00,
      shr_and_ff (int len) 0, shr_and_ff (int len) 8,
      shr_and_ff (int len) 16, shr_and_ff (int len) 24,
      shr_and_ff offset 0, shr_and_ff offset 8,
      shr_and_ff offset 16, shr_and_ff offset 24]"

definition chunkData :: "Uint8Array \<Rightarrow> Uint8Array" where
  "chunkData chunk =
     [ROM_LOADER_FLASH_DATA_CMD,
      shr_and_ff (int (length chunk)) 0, shr_and_ff (int (length chunk)) 8,
      0x00] @ chunk"

definition flashEnd :: Uint8Array where
  "flashEnd = [ROM_LOADER_FLASH_END_CMD, 0x00]"

text \<open>\<^verbatim>\<open>xs.slice(i, j)\<close> for \<open>i \<le> j\<close>, both clamped to the length.\<close>

definition js_slice :: "'a list \<Rightarrow> nat \<Rightarrow> nat \<Rightarrow> 'a list" where
  "js_slice xs i j = take (j - i) (drop i xs)"

definition chunkSize :: nat where
  "chunkSize = 256"

section \<open>flashFirmware\<close>

text \<open>
  One turn of the \<^verbatim>\<open>for\<close> loop, at index \<open>i\<close>: build and write the DATA frame, wait,
  publish the progress, log. A rejected write leaves the body at once; the result
  carries what was thrown, if anything.
\<close>

definition flashChunk :: "Uint8Array \<Rightarrow> nat \<Rightarrow> engine \<Rightarrow> world \<Rightarrow> thrown option \<times> engine \<times> world" where
  "flashChunk fileData i e w =
     (let chunk = js_slice fileData i (min (i + chunkSize) (length fileData)) in
      case write_bytes (chunkData chunk) e w of
        (Some err, w1) \<Rightarrow> (Some err, e, w1)
      | (None, w1) \<Rightarrow>
          (let w2 = delay 50 w1;
               prog = min (i + chunkSize) (length fileData);
               e1 = e\<lparr>state := (state e)\<lparr>progress :=
                      \<lparr>current = prog, total = length fileData,
                       percentage = js_percentage prog (length fileData)\<rparr>\<rparr>\<rparr>;
               e2 = addLog (''Flashed '' @ showNat prog @ ''/'' @ showNat (length fileData)
                              @ '' bytes'') (Some Info) e1 w2
           in (None, e2, w2)))"

function flashLoop :: "Uint8Array \<Rightarrow> nat \<Rightarrow> engine \<Rightarrow> world \<Rightarrow> thrown option \<times> engine \<times> world" where
  "flashLoop fileData i e w =
     (if i < length fileData then
        (let r = flashChunk fileData i e w in
         if fst r = None then flashLoop fileData (i + chunkSize) (fst (snd r)) (snd (snd r))
         else r)
      else (None, e, w))"
  by pat_completeness auto
termination
  by (relation "measure (\<lambda>(fileData, i, e, w). length fileData - i)")
     (auto simp: chunkSize_def)

text \<open>
  The updater queued before the \<^verbatim>\<open>try\<close>: the flashing flag goes up, the error is
  cleared, the progress starts at \<open>{0, length, 0}\<close>.
\<close>

definition flashInit :: "Uint8Array \<Rightarrow> engine \<Rightarrow> engine" where
  "flashInit fileData e =
     e\<lparr>state := (state e)\<lparr>isFlashing := True, error := None,
                  progress := \<lparr>current = 0, total = length fileData, percentage = 0\<rparr>\<rparr>\<rparr>"

text \<open>The \<^verbatim>\<open>try\<close> block up to the loop: three log lines, the BEGIN frame, the settle delay.\<close>

definition flashStart :: "Uint8Array \<Rightarrow> int \<Rightarrow> engine \<Rightarrow> world \<Rightarrow> thrown option \<times> engine \<times> world" where
  "flashStart fileData offset e w =
     (let e1 = addLog ''Starting firmware flash...'' (Some Info) e w;
          e2 = addLog (''File size: '' @ showNat (length fileData) @ '' bytes'') (Some Info) e1 w;
          e3 = addLog (''Flash offset: 0x'' @ toString16 offset) (Some Info) e2 w
      in case write_bytes (flashBegin (length fileData) offset) e3 w of
           (Some err, w1) \<Rightarrow> (Some err, e3, w1)
         | (None, w1) \<Rightarrow> (None, e3, delay 100 w1))"

text \<open>The \<^verbatim>\<open>try\<close> block after the loop: the END frame, the delay, the forced 100 percent.\<close>

definition flashFinish :: "Uint8Array \<Rightarrow> engine \<Rightarrow> world \<Rightarrow> thrown option \<times> engine \<times> world" where
  "flashFinish fileData e w =
     (case write_bytes flashEnd e w of
        (Some err, w1) \<Rightarrow> (Some err, e, w1)
      | (None, w1) \<Rightarrow>
          (let w2 = delay 500 w1;
               e1 = e\<lparr>state := (state e)\<lparr>isFlashing := False,
                      progress := \<lparr>current = length fileData, total = length fileData,
                                   percentage = 100\<rparr>\<rparr>\<rparr>
           in (None, addLog ''Firmware flash completed successfully!'' (Some Success) e1 w2, w2)))"

text \<open>The body of the \<^verbatim>\<open>try\<close> block: the first thing thrown ends it.\<close>

definition flashTry :: "Uint8Array \<Rightarrow> int \<Rightarrow> engine \<Rightarrow> world \<Rightarrow> thrown option \<times> engine \<times> world" where
  "flashTry fileData offset e w =
     (case flashStart fileData offset e w of
        (Some err, e1, w1) \<Rightarrow> (Some err, e1, w1)
      | (None, e1, w1) \<Rightarrow>
          (case flashLoop fileData 0 e1 w1 of
             (Some err, e2, w2) \<Rightarrow> (Some err, e2, w2)
           | (None, e2, w2) \<Rightarrow> flashFinish fileData e2 w2))"

text \<open>
  \<^verbatim>\<open>flashFirmware(fileData, offset = 0x10000)\<close>. The guard throws outside the
  \<^verbatim>\<open>try\<close>; everything thrown inside it reaches the \<^verbatim>\<open>catch\<close>, which records the
  message and throws again. The result is what the promise rejects with (\<open>None\<close>: it
  resolves), the engine and the world afterwards.
\<close>

definition flashFirmware :: "Uint8Array \<Rightarrow> int option \<Rightarrow> engine \<Rightarrow> world \<Rightarrow> thrown option \<times> engine \<times> world" where
  "flashFirmware fileData off e w =
     (let offset = (case off of None \<Rightarrow> 0x10000 | Some x \<Rightarrow> x) in
      if portRef e = None then (Some (ErrorObj ''Not connected to device''), e, w)
      else
        (case flashTry fileData offset (flashInit fileData e) w of
           (None, e1, w1) \<Rightarrow> (None, e1, w1)
         | (Some err, e1, w1) \<Rightarrow>
             (let msg = (case err of ErrorObj m \<Rightarrow> m | NonError \<Rightarrow> ''Flash failed'');
                  e2 = e1\<lparr>state := (state e1)\<lparr>isFlashing := False, error := Some msg\<rparr>\<rparr>
              in (Some err, addLog (''Flash error: '' @ msg) (Some Error) e2 w1, w1))))"

text \<open>
  The states at the head of the \<^verbatim>\<open>for\<close> loop within one call: the loop is entered
  with \<open>i = 0\<close> once the BEGIN frame is out, and each turn that does not throw leads to
  the next head.
\<close>

inductive loop_head :: "Uint8Array \<Rightarrow> nat \<Rightarrow> engine \<Rightarrow> world \<Rightarrow> bool" for fileData where
  enter: "flashStart fileData offset (flashInit fileData e) w = (None, e', w') \<Longrightarrow>
          loop_head fileData 0 e' w'"
| turn: "loop_head fileData i e w \<Longrightarrow> i < length fileData \<Longrightarrow>
         flashChunk fileData i e w = (None, e', w') \<Longrightarrow>
         loop_head fileData (i + chunkSize) e' w'"

section \<open>Reading the frames\<close>

text \<open>A 32-bit value written little-endian in four bytes, in the spec's words.\<close>

definition u32_le :: "nat \<Rightarrow> Uint8Array" where
  "u32_le n =
     [of_nat (n mod 256), of_nat (n div 256 mod 256),
      of_nat (n div 65536 mod 256), of_nat (n div 16777216 mod 256)]"

text \<open>The number that a little-endian byte sequence stands for.\<close>

definition le_value :: "Uint8Array \<Rightarrow> nat" where
  "le_value bs = foldr (\<lambda>b acc. unat b + 256 * acc) bs 0"

text \<open>
  Modelled from the spec: the repository has no decoder for its frames (nothing reads
  them back), so the two readers below follow the layouts that the spec gives for
  \<^verbatim>\<open>encodeFlashBegin\<close> and \<^verbatim>\<open>encodeFlashData\<close>: a 16-byte BEGIN frame with the length
  in bytes 8 to 11 and the offset in bytes 12 to 15, and a DATA frame with a two-byte
  length, a zero byte and the payload.
\<close>

definition decodeFlashBegin :: "Uint8Array \<Rightarrow> (nat \<times> int) option" where
  "decodeFlashBegin frame =
     (if length frame = 16 \<and> take 8 frame = [0x02, 0, 0, 0, 0, 0, 0, 0]
      then Some (le_value (take 4 (drop 8 frame)), int (le_value (drop 12 frame)))
      else None)"

definition decodeFlashData :: "Uint8Array \<Rightarrow> (nat \<times> Uint8Array) option" where
  "decodeFlashData frame =
     (case frame of
        cmd # l0 # l1 # r # payload \<Rightarrow>
          if cmd = 0x03 \<and> r = 0 \<and> le_value [l0, l1] = length payload
          then Some (le_value [l0, l1], payload) else None
      | _ \<Rightarrow> None)"

section \<open>Concrete engines and worlds\<close>

definition quietWorld :: world where
  "quietWorld = \<lparr>sent = [], script = [], clock = 0\<rparr>"

text \<open>The engine after a \<^verbatim>\<open>connect()\<close> that opened the port.\<close>

definition openEngine :: engine where
  "openEngine = snd (connect None Opens initialEngine quietWorld)"

text \<open>The same engine after \<^verbatim>\<open>disconnect()\<close>, the port closing as asked.\<close>

definition closedEngine :: engine where
  "closedEngine = disconnect True openEngine quietWorld"

text \<open>An engine in the middle of a flash: the flag is up.\<close>

definition busyEngine :: engine where
  "busyEngine = flashInit [1, 2, 3] openEngine"

text \<open>
  The initial engine after 100 calls of \<^verbatim>\<open>addLog\<close>, the call number \<open>n\<close> made at
  time \<open>n\<close>.
\<close>

definition fullLogEngine :: engine where
  "fullLogEngine =
     foldl (\<lambda>e (msg, ty, w). addLog msg ty e w) initialEngine
       (map (\<lambda>n. (''entry'', None, quietWorld\<lparr>clock := n\<rparr>)) [0..<100])"

text \<open>A world whose transport rejects the third write (BEGIN and one DATA frame pass).\<close>

definition failingWorld :: world where
  "failingWorld = \<lparr>sent = [], script = [None, None, Some (ErrorObj ''device lost'')], clock = 0\<rparr>"

text \<open>An image one byte longer than a chunk.\<close>

definition oddImage :: Uint8Array where
  "oddImage = replicate 257 0"

text \<open>
  Engine and world on entry to the loop, for a flash of the given image started on
  \<open>openEngine\<close> in \<open>quietWorld\<close>.
\<close>

definition loopEntry :: "Uint8Array \<Rightarrow> engine \<times> world" where
  "loopEntry fileData =
     snd (flashStart fileData 0x10000 (flashInit fileData openEngine) quietWorld)"

section \<open>Basic facts\<close>

text \<open>The recursive equations are unfolded by hand, one turn at a time.\<close>

declare flashLoop.simps [simp del] toStringRadix.simps [simp del] bit_length.simps [simp del]

subsection \<open>The bounded log\<close>

lemma length_slice_last: "length (slice_last n xs) \<le> n"
  by (simp add: slice_last_def)

lemma slice_last_slice_last:
  "slice_last n (slice_last n xs @ ys) = slice_last n (xs @ ys)"
proof -
  have "length xs + length ys - (length xs - n + n) + (length xs - n) = length xs + length ys - n"
    by arith
  then show ?thesis
    by (simp add: slice_last_def)
qed

lemma logs_addLog:
  "logs (state (addLog msg ty e w)) = slice_last 100 (logs (state e) @ [logEntry msg ty (clock w)])"
  by (simp add: addLog_def addLogState_def)

lemma slice_last_snoc_full:
  "length xs = n \<Longrightarrow> 0 < n \<Longrightarrow> slice_last n (xs @ [x]) = tl xs @ [x]"
  by (cases xs) (simp_all add: slice_last_def)

lemma slice_last_snoc_last:
  "0 < n \<Longrightarrow> slice_last n (xs @ [x]) \<noteq> [] \<and> last (slice_last n (xs @ [x])) = x"
  by (simp add: slice_last_def)

lemma foldl_addLog_bounded:
  "length (logs (state e)) \<le> 100 \<Longrightarrow>
   length (logs (state (foldl (\<lambda>e (msg, ty, w). addLog msg ty e w) e ops))) \<le> 100"
  by (induction ops arbitrary: e) (auto simp: logs_addLog length_slice_last)

lemma addLog_fields [simp]:
  "portRef (addLog msg ty e w) = portRef e"
  "readerRef (addLog msg ty e w) = readerRef e"
  "isConnected (state (addLog msg ty e w)) = isConnected (state e)"
  "isFlashing (state (addLog msg ty e w)) = isFlashing (state e)"
  "progress (state (addLog msg ty e w)) = progress (state e)"
  "error (state (addLog msg ty e w)) = error (state e)"
  by (simp_all add: addLog_def addLogState_def)

subsection \<open>Writes that resolve and writes that reject\<close>

lemma write_bytes_resolves:
  "portRef e = Some p \<Longrightarrow> writable p \<Longrightarrow> script w = None # rest \<Longrightarrow>
   write_bytes d e w = (None, w\<lparr>sent := sent w @ [d], script := rest\<rparr>)"
  by (simp add: write_bytes_def)

lemma write_bytes_rejects:
  "portRef e = Some p \<Longrightarrow> writable p \<Longrightarrow> script w = Some err # rest \<Longrightarrow>
   write_bytes d e w = (Some err, w\<lparr>script := rest\<rparr>)"
  by (simp add: write_bytes_def)

text \<open>Entries appended one after the other are cut to 100 as if appended at once.\<close>

lemma appended_addLog:
  assumes "logs (state e') = slice_last 100 (logs (state e) @ xs)"
  shows "logs (state (addLog msg ty e' w)) = slice_last 100 (logs (state e) @ xs @ [logEntry msg ty (clock w)])"
  using slice_last_slice_last [of 100 "logs (state e) @ xs" "[logEntry msg ty (clock w)]"]
  by (simp add: logs_addLog assms)

lemma flashChunk_resolves:
  assumes "portRef e = Some p" "writable p" "script w = None # rest"
  shows "flashChunk fd i e w =
    (None,
     addLog (''Flashed '' @ showNat (min (i + chunkSize) (length fd)) @ ''/'' @ showNat (length fd) @ '' bytes'')
       (Some Info)
       (e\<lparr>state := (state e)\<lparr>progress :=
            \<lparr>current = min (i + chunkSize) (length fd), total = length fd,
             percentage = js_percentage (min (i + chunkSize) (length fd)) (length fd)\<rparr>\<rparr>\<rparr>)
       (delay 50 (w\<lparr>sent := sent w @ [chunkData (js_slice fd i (min (i + chunkSize) (length fd)))], script := rest\<rparr>)),
     delay 50 (w\<lparr>sent := sent w @ [chunkData (js_slice fd i (min (i + chunkSize) (length fd)))], script := rest\<rparr>))"
  by (simp add: flashChunk_def write_bytes_resolves [OF assms] Let_def)

lemma flashChunk_rejects:
  assumes "portRef e = Some p" "writable p" "script w = Some err # rest"
  shows "flashChunk fd i e w = (Some err, e, w\<lparr>script := rest\<rparr>)"
  by (simp add: flashChunk_def write_bytes_rejects [OF assms] Let_def)

lemma upt_0_Suc_map: "map f [0..<Suc n] = f 0 # map (\<lambda>j. f (Suc j)) [0..<n]"
  by (simp add: upt_conv_Cons map_Suc_upt [symmetric] del: upt_Suc)

text \<open>
  The loop when the write of its turn \<open>n\<close> (counted from 0) rejects and the earlier
  ones resolve: \<open>n\<close> DATA frames go out, the script is consumed up to the rejection,
  and only info entries reach the log.
\<close>

lemma flashLoop_rejects:
  assumes "portRef e = Some p" "writable p"
    and "script w = replicate n None @ Some err # rest"
    and "i + n * chunkSize < length fd"
    and "length (logs (state e)) \<le> 100"
  shows "\<exists>e' w' added.
           flashLoop fd i e w = (Some err, e', w') \<and>
           sent w' = sent w @ map (\<lambda>j. chunkData (js_slice fd (i + j * chunkSize) (min (i + j * chunkSize + chunkSize) (length fd)))) [0..<n] \<and>
           script w' = rest \<and>
           portRef e' = portRef e \<and>
           isFlashing (state e') = isFlashing (state e) \<and>
           error (state e') = error (state e) \<and>
           logs (state e') = slice_last 100 (logs (state e) @ added) \<and>
           filter (\<lambda>l. type l = Error) added = []"
  using assms
proof (induction n arbitrary: i e w)
  case 0
  then have s: "script w = Some err # rest" and i: "i < length fd" by simp_all
  have "flashLoop fd i e w = (Some err, e, w\<lparr>script := rest\<rparr>)"
    by (subst flashLoop.simps) (simp add: i flashChunk_rejects [OF "0.prems"(1,2) s])
  moreover have "logs (state e) = slice_last 100 (logs (state e) @ [])"
    using "0.prems"(5) by (simp add: slice_last_def)
  ultimately show ?case 
    apply (intro exI [of _ e] exI [of _ "w\<lparr>script := rest\<rparr>"] exI [of _ "[]"])
    apply simp
    done
next
  case (Suc n)
  let ?prog = "min (i + chunkSize) (length fd)"
  let ?w1 = "delay 50 (w\<lparr>sent := sent w @ [chunkData (js_slice fd i ?prog)], script := replicate n None @ Some err # rest\<rparr>)"
  let ?msg = "''Flashed '' @ showNat ?prog @ ''/'' @ showNat (length fd) @ '' bytes''"
  let ?e1 = "addLog ?msg (Some Info)
       (e\<lparr>state := (state e)\<lparr>progress :=
            \<lparr>current = ?prog, total = length fd, percentage = js_percentage ?prog (length fd)\<rparr>\<rparr>\<rparr>) ?w1"
  from Suc.prems have s: "script w = None # (replicate n None @ Some err # rest)"
    and i: "i < length fd" and i': "(i + chunkSize) + n * chunkSize < length fd"
    by simp_all
  have chunk: "flashChunk fd i e w = (None, ?e1, ?w1)"
    by (rule flashChunk_resolves [OF Suc.prems(1,2) s])
  have unfold: "flashLoop fd i e w = flashLoop fd (i + chunkSize) ?e1 ?w1"
    by (subst flashLoop.simps) (simp add: i chunk)
  have p1: "portRef ?e1 = Some p" using Suc.prems(1) by simp
  have s1: "script ?w1 = replicate n None @ Some err # rest" by (simp add: delay_def)
  have b1: "length (logs (state ?e1)) \<le> 100" by (simp add: logs_addLog length_slice_last)
  from Suc.IH [OF p1 Suc.prems(2) s1 i' b1]
  obtain e' w' added where
    r: "flashLoop fd (i + chunkSize) ?e1 ?w1 = (Some err, e', w')" and
    snt: "sent w' = sent ?w1 @ map (\<lambda>j. chunkData (js_slice fd (i + chunkSize + j * chunkSize) (min (i + chunkSize + j * chunkSize + chunkSize) (length fd)))) [0..<n]" and
    scr: "script w' = rest" and
    prt: "portRef e' = portRef ?e1" and
    fl: "isFlashing (state e') = isFlashing (state ?e1)" and
    er: "error (state e') = error (state ?e1)" and
    lg: "logs (state e') = slice_last 100 (logs (state ?e1) @ added)" and
    ne: "filter (\<lambda>l. type l = Error) added = []"
    by blast
  have lg1: "logs (state ?e1) = slice_last 100 (logs (state e) @ [logEntry ?msg (Some Info) (clock ?w1)])"
    by (simp add: logs_addLog)
  have "logs (state e') =
          slice_last 100 (slice_last 100 (logs (state e) @ [logEntry ?msg (Some Info) (clock ?w1)]) @ added)"
    by (simp only: lg lg1)
  also have "\<dots> = slice_last 100 ((logs (state e) @ [logEntry ?msg (Some Info) (clock ?w1)]) @ added)"
    by (rule slice_last_slice_last)
  finally have lg': "logs (state e') = slice_last 100 (logs (state e) @ (logEntry ?msg (Some Info) (clock ?w1) # added))"
    by simp
  have snt': "sent w' = sent w @ map (\<lambda>j. chunkData (js_slice fd (i + j * chunkSize) (min (i + j * chunkSize + chunkSize) (length fd)))) [0..<Suc n]"
    unfolding upt_0_Suc_map snt by (simp add: delay_def ac_simps)
  show ?case
    apply (intro exI [of _ e'] exI [of _ w'] exI [of _ "logEntry ?msg (Some Info) (clock ?w1) # added"])
    apply (intro conjI)
    subgoal using unfold r by simp
    subgoal by (rule snt')
    subgoal by (rule scr)
    subgoal using prt by simp
    subgoal using fl by simp
    subgoal using er by simp
    subgoal by (rule lg')
    subgoal using ne by (simp add: logEntry_def)
    done
qed


lemma flashStart_resolves:
  assumes "portRef e = Some p" "writable p" "script w = None # rest"
  shows "flashStart fd offset e w =
    (None,
     addLog (''Flash offset: 0x'' @ toString16 offset) (Some Info)
       (addLog (''File size: '' @ showNat (length fd) @ '' bytes'') (Some Info)
          (addLog ''Starting firmware flash...'' (Some Info) e w) w) w,
     delay 100 (w\<lparr>sent := sent w @ [flashBegin (length fd) offset], script := rest\<rparr>))"
proof -
  let ?e3 = "addLog (''Flash offset: 0x'' @ toString16 offset) (Some Info)
       (addLog (''File size: '' @ showNat (length fd) @ '' bytes'') (Some Info)
          (addLog ''Starting firmware flash...'' (Some Info) e w) w) w"
  have "portRef ?e3 = Some p" using assms(1) by simp
  from write_bytes_resolves [OF this assms(2,3)] show ?thesis
    by (simp add: flashStart_def Let_def)
qed

section \<open>The log sink\<close>

text \<open>
  A run of \<^verbatim>\<open>addLog\<close> calls leaves the entries it made, in the order of the calls, cut
  to the last 100.
\<close>

lemma logs_foldl_addLog:
  "length (logs (state e)) \<le> 100 \<Longrightarrow>
   logs (state (foldl (\<lambda>e (msg, ty, w). addLog msg ty e w) e ops)) =
     slice_last 100 (logs (state e) @ map (\<lambda>(msg, ty, w). logEntry msg ty (clock w)) ops)"
proof (induction ops rule: rev_induct)
  case Nil
  then show ?case by (simp add: slice_last_def)
next
  case (snoc x xs)
  obtain msg ty w where x: "x = (msg, ty, w)" by (cases x) auto
  let ?made = "map (\<lambda>(msg, ty, w). logEntry msg ty (clock w)) xs"
  have "logs (state (foldl (\<lambda>e (msg, ty, w). addLog msg ty e w) e (xs @ [x]))) =
          slice_last 100 (slice_last 100 (logs (state e) @ ?made) @ [logEntry msg ty (clock w)])"
    using snoc by (simp add: x logs_addLog)
  also have "\<dots> = slice_last 100 ((logs (state e) @ ?made) @ [logEntry msg ty (clock w)])"
    by (rule slice_last_slice_last)
  finally show ?case by (simp add: x)
qed

text \<open>
  Claim C6. After any sequence of \<^verbatim>\<open>addLog\<close> calls from the initial engine the log is
  the sequence of the entries appended, in the order of the calls, without all but the
  last 100 of them; so it never holds more than 100 entries, and neither does the log
  after a single call on any engine. A single call leaves the old log followed by the new
  entry, without the oldest entries beyond 100: below 100 entries every old entry stays
  and the new one is added at the end; at 100 entries the oldest one is dropped and the
  other 99 keep their order, followed by the new one.
\<close>

theorem addLog_bounded:
  "logs (state (foldl (\<lambda>e (msg, ty, w). addLog msg ty e w) initialEngine ops)) =
     drop (length ops - 100) (map (\<lambda>(msg, ty, w). logEntry msg ty (clock w)) ops) \<and>
   length (logs (state (foldl (\<lambda>e (msg, ty, w). addLog msg ty e w) initialEngine ops))) \<le> 100 \<and>
   length (logs (state (addLog msg ty e w))) \<le> 100 \<and>
   logs (state (addLog msg ty e w)) =
     drop (Suc (length (logs (state e))) - 100) (logs (state e) @ [logEntry msg ty (clock w)]) \<and>
   (length (logs (state e)) < 100 \<longrightarrow>
      logs (state (addLog msg ty e w)) = logs (state e) @ [logEntry msg ty (clock w)]) \<and>
   (length (logs (state e)) = 100 \<longrightarrow>
      logs (state (addLog msg ty e w)) = tl (logs (state e)) @ [logEntry msg ty (clock w)])"
proof -
  have run: "logs (state (foldl (\<lambda>e (msg, ty, w). addLog msg ty e w) initialEngine ops)) =
     drop (length ops - 100) (map (\<lambda>(msg, ty, w). logEntry msg ty (clock w)) ops)"
    using logs_foldl_addLog [of initialEngine ops]
    by (simp add: initialEngine_def initialState_def slice_last_def)
  have one: "logs (state (addLog msg ty e w)) =
     drop (Suc (length (logs (state e))) - 100) (logs (state e) @ [logEntry msg ty (clock w)])"
    by (simp add: logs_addLog slice_last_def)
  have below: "length (logs (state e)) < 100 \<longrightarrow>
      logs (state (addLog msg ty e w)) = logs (state e) @ [logEntry msg ty (clock w)]"
    by (simp add: logs_addLog slice_last_def)
  have full: "length (logs (state e)) = 100 \<longrightarrow>
      logs (state (addLog msg ty e w)) = tl (logs (state e)) @ [logEntry msg ty (clock w)]"
    by (simp add: logs_addLog slice_last_snoc_full)
  have b1: "length (logs (state (foldl (\<lambda>e (msg, ty, w). addLog msg ty e w) initialEngine ops))) \<le> 100"
    by (simp add: foldl_addLog_bounded initialEngine_def initialState_def)
  have b2: "length (logs (state (addLog msg ty e w))) \<le> 100"
    by (simp add: logs_addLog length_slice_last)
  from run b1 b2 one below full show ?thesis by blast
qed

text \<open>
  The theorem at work: the log of \<open>fullLogEngine\<close> holds the 100 entries of its 100
  calls, in their order; one more call drops the oldest; and the first call on the
  initial engine, whose log is empty, leaves its entry alone in the log.
\<close>

theorem addLog_bounded_witness:
  "logs (state fullLogEngine) = map (\<lambda>n. logEntry ''entry'' None n) [0..<100] \<and>
   length (logs (state fullLogEngine)) = 100 \<and>
   logs (state (addLog ''one more'' (Some Warning) fullLogEngine quietWorld)) =
     tl (logs (state fullLogEngine)) @ [logEntry ''one more'' (Some Warning) (clock quietWorld)] \<and>
   logs (state (addLog ''first'' None initialEngine quietWorld)) =
     [logEntry ''first'' None (clock quietWorld)]"
proof -
  have run: "logs (state fullLogEngine) = map (\<lambda>n. logEntry ''entry'' None n) [0..<100]"
    using addLog_bounded [where ops = "map (\<lambda>n. (''entry'', None, quietWorld\<lparr>clock := n\<rparr>)) [0..<100]"]
    by (simp add: fullLogEngine_def comp_def)
  then have len: "length (logs (state fullLogEngine)) = 100"
    by simp
  have more: "logs (state (addLog ''one more'' (Some Warning) fullLogEngine quietWorld)) =
     tl (logs (state fullLogEngine)) @ [logEntry ''one more'' (Some Warning) (clock quietWorld)]"
    using addLog_bounded [where e = fullLogEngine and msg = "''one more''" and ty = "Some Warning"
        and w = quietWorld] len
    by blast
  have "length (logs (state initialEngine)) < 100"
    by (simp add: initialEngine_def initialState_def)
  with addLog_bounded [where e = initialEngine and msg = "''first''" and ty = None and w = quietWorld]
  have "logs (state (addLog ''first'' None initialEngine quietWorld)) =
     logs (state initialEngine) @ [logEntry ''first'' None (clock quietWorld)]"
    by blast
  then have first: "logs (state (addLog ''first'' None initialEngine quietWorld)) =
     [logEntry ''first'' None (clock quietWorld)]"
    by (simp add: initialEngine_def initialState_def)
  from run len more first show ?thesis by blast
qed

text \<open>
  Claim C9. \<^verbatim>\<open>clearLogs\<close> empties the log and changes nothing else: the connected flag,
  the flashing flag, the progress record and the error field are as before, and so are
  the two refs.
\<close>

theorem clearLogs_frame:
  "logs (state (clearLogs e)) = [] \<and>
   isConnected (state (clearLogs e)) = isConnected (state e) \<and>
   isFlashing (state (clearLogs e)) = isFlashing (state e) \<and>
   progress (state (clearLogs e)) = progress (state e) \<and>
   error (state (clearLogs e)) = error (state e) \<and>
   portRef (clearLogs e) = portRef e \<and>
   readerRef (clearLogs e) = readerRef e"
  by (simp add: clearLogs_def)

text \<open>
  Claim C10. A call of \<^verbatim>\<open>addLog\<close> that leaves the category out appends an entry of
  category info: afterwards the log is not empty and its last entry carries the message,
  the category \<open>Info\<close> and the time of the call.
\<close>

theorem addLog_default_info:
  "logs (state (addLog msg None e w)) \<noteq> [] \<and>
   last (logs (state (addLog msg None e w))) =
     \<lparr>message = msg, type = Info, timestamp = clock w\<rparr>"
  using slice_last_snoc_last [of 100 "logs (state e)" "logEntry msg None (clock w)"]
  by (simp add: logs_addLog logEntry_def)

section \<open>A write that fails in the loop\<close>

text \<open>
  Claim C4. Let a port be held and writable, and let the transport accept the BEGIN
  frame and the first \<open>k\<close> DATA frames and reject the next DATA frame (there is one:
  \<open>k * 256\<close> is below the image length) with \<open>err\<close>. Then \<^verbatim>\<open>flashFirmware\<close> rejects
  with \<open>err\<close>; the transport has received the BEGIN frame and those \<open>k\<close> DATA frames and
  nothing else, and no write was attempted after the rejected one (the rest of the script
  is untouched); the flashing flag is down; the error field holds the message of \<open>err\<close>;
  and of the entries this call appended to the log exactly one has category error.
\<close>

theorem flash_write_failure:
  assumes "portRef e = Some p" and "writable p"
    and "script w = replicate (Suc k) None @ Some err # rest"
    and "k * chunkSize < length fileData"
  shows "fst (flashFirmware fileData off e w) = Some err \<and>
         sent (snd (snd (flashFirmware fileData off e w))) =
           sent w @ flashBegin (length fileData) (case off of None \<Rightarrow> 0x10000 | Some x \<Rightarrow> x) #
             map (\<lambda>j. chunkData (js_slice fileData (j * chunkSize)
                          (min (j * chunkSize + chunkSize) (length fileData)))) [0..<k] \<and>
         script (snd (snd (flashFirmware fileData off e w))) = rest \<and>
         isFlashing (state (fst (snd (flashFirmware fileData off e w)))) = False \<and>
         error (state (fst (snd (flashFirmware fileData off e w)))) =
           Some (case err of ErrorObj m \<Rightarrow> m | NonError \<Rightarrow> ''Flash failed'') \<and>
         (\<exists>added. logs (state (fst (snd (flashFirmware fileData off e w)))) =
                    slice_last 100 (logs (state e) @ added) \<and>
                  length (filter (\<lambda>l. type l = Error) added) = 1)"
proof -
  let ?offset = "case off of None \<Rightarrow> 0x10000 | Some x \<Rightarrow> x"
  let ?msg = "case err of ErrorObj m \<Rightarrow> m | NonError \<Rightarrow> ''Flash failed''"
  let ?e0 = "flashInit fileData e"
  let ?l1 = "logEntry ''Starting firmware flash...'' (Some Info) (clock w)"
  let ?l2 = "logEntry (''File size: '' @ showNat (length fileData) @ '' bytes'') (Some Info) (clock w)"
  let ?l3 = "logEntry (''Flash offset: 0x'' @ toString16 ?offset) (Some Info) (clock w)"
  let ?e3 = "addLog (''Flash offset: 0x'' @ toString16 ?offset) (Some Info)
       (addLog (''File size: '' @ showNat (length fileData) @ '' bytes'') (Some Info)
          (addLog ''Starting firmware flash...'' (Some Info) ?e0 w) w) w"
  let ?w1 = "delay 100 (w\<lparr>sent := sent w @ [flashBegin (length fileData) ?offset],
                          script := replicate k None @ Some err # rest\<rparr>)"
  have p0: "portRef ?e0 = Some p" using assms(1) by (simp add: flashInit_def)
  have s0: "script w = None # (replicate k None @ Some err # rest)" using assms(3) by simp
  have start: "flashStart fileData ?offset ?e0 w = (None, ?e3, ?w1)"
    by (rule flashStart_resolves [OF p0 assms(2) s0])
  have p3: "portRef ?e3 = Some p" using p0 by simp
  have s1: "script ?w1 = replicate k None @ Some err # rest" by (simp add: delay_def)
  have i: "0 + k * chunkSize < length fileData" using assms(4) by simp
  have b3: "length (logs (state ?e3)) \<le> 100" by (simp add: logs_addLog length_slice_last)
  have lg3: "logs (state ?e3) = slice_last 100 (logs (state e) @ [?l1, ?l2, ?l3])"
  proof -
    have "logs (state (addLog ''Starting firmware flash...'' (Some Info) ?e0 w)) =
            slice_last 100 (logs (state e) @ [?l1])"
      by (simp add: logs_addLog flashInit_def)
    from appended_addLog [where xs = "[?l1]", OF this]
    have "logs (state (addLog (''File size: '' @ showNat (length fileData) @ '' bytes'') (Some Info)
             (addLog ''Starting firmware flash...'' (Some Info) ?e0 w) w)) =
            slice_last 100 (logs (state e) @ [?l1, ?l2])"
      by simp
    from appended_addLog [where xs = "[?l1, ?l2]", OF this]
    show ?thesis by simp
  qed
  from flashLoop_rejects [OF p3 assms(2) s1 i b3]
  obtain e' w' added where
    r: "flashLoop fileData 0 ?e3 ?w1 = (Some err, e', w')" and
    snt: "sent w' = sent ?w1 @ map (\<lambda>j. chunkData (js_slice fileData (0 + j * chunkSize) (min (0 + j * chunkSize + chunkSize) (length fileData)))) [0..<k]" and
    scr: "script w' = rest" and
    lg: "logs (state e') = slice_last 100 (logs (state ?e3) @ added)" and
    ne: "filter (\<lambda>l. type l = Error) added = []"
    by blast
  let ?e2 = "e'\<lparr>state := (state e')\<lparr>isFlashing := False, error := Some ?msg\<rparr>\<rparr>"
  let ?l4 = "logEntry (''Flash error: '' @ ?msg) (Some Error) (clock w')"
  have tr: "flashTry fileData ?offset ?e0 w = (Some err, e', w')"
    by (simp only: flashTry_def start r prod.case option.case)
  have res: "flashFirmware fileData off e w =
               (Some err, addLog (''Flash error: '' @ ?msg) (Some Error) ?e2 w', w')"
    using assms(1) by (simp add: flashFirmware_def tr Let_def)
  have "logs (state e') = slice_last 100 (slice_last 100 (logs (state e) @ [?l1, ?l2, ?l3]) @ added)"
    by (simp only: lg lg3)
  also have "\<dots> = slice_last 100 ((logs (state e) @ [?l1, ?l2, ?l3]) @ added)"
    by (rule slice_last_slice_last)
  finally have lg': "logs (state e') = slice_last 100 (logs (state e) @ ([?l1, ?l2, ?l3] @ added))"
    by simp
  have lg2: "logs (state ?e2) = slice_last 100 (logs (state e) @ ([?l1, ?l2, ?l3] @ added))"
    using lg' by simp
  have lgf: "logs (state (addLog (''Flash error: '' @ ?msg) (Some Error) ?e2 w')) =
               slice_last 100 (logs (state e) @ ([?l1, ?l2, ?l3] @ added) @ [?l4])"
    by (rule appended_addLog [OF lg2])
  have cnt: "length (filter (\<lambda>l. type l = Error) (([?l1, ?l2, ?l3] @ added) @ [?l4])) = 1"
    using ne by (simp add: logEntry_def)
  show ?thesis
    unfolding res
    apply (intro conjI)
    subgoal by simp
    subgoal using snt by (simp add: delay_def)
    subgoal using scr by simp
    subgoal by simp
    subgoal by simp
    subgoal
      apply (rule exI [of _ "([?l1, ?l2, ?l3] @ added) @ [?l4]"])
      using lgf cnt apply simp
      done
    done
qed

theorem flash_write_failure_witness:
  "fst (flashFirmware (replicate 300 0) None openEngine failingWorld) =
     Some (ErrorObj ''device lost'') \<and>
   script (snd (snd (flashFirmware (replicate 300 0) None openEngine failingWorld))) = [] \<and>
   isFlashing (state (fst (snd (flashFirmware (replicate 300 0) None openEngine failingWorld)))) =
     False \<and>
   error (state (fst (snd (flashFirmware (replicate 300 0) None openEngine failingWorld)))) =
     Some ''device lost''"
  using flash_write_failure [where e = openEngine and p = "\<lparr>readable = True, writable = True\<rparr>"
      and w = failingWorld and k = 1 and err = "ErrorObj ''device lost''" and rest = "[]"
      and fileData = "replicate 300 0" and off = None]
  by (simp add: openEngine_def connect_def initialEngine_def failingWorld_def chunkSize_def)

section \<open>The frames\<close>

subsection \<open>Bytes of the shifted and masked numbers\<close>

lemma shr_and_ff_eq: "k \<le> 24 \<Longrightarrow> shr_and_ff x k = word_of_int (x div 2 ^ k)"
proof -
  assume k: "k \<le> 24"
  have m: "(0xff :: 32 word) = mask 8" by (simp add: mask_eq_exp_minus_1)
  show ?thesis
    unfolding shr_and_ff_def ToInt32_def m
    apply (rule bit_word_eqI)
    using k apply (auto simp add: bit_simps simp flip: drop_bit_eq_div)
    done
qed

lemma shr_and_ff_nat: "k \<le> 24 \<Longrightarrow> shr_and_ff (int n) k = of_nat (n div 2 ^ k)"
proof -
  assume "k \<le> 24"
  then have "shr_and_ff (int n) k = word_of_int (int n div 2 ^ k)" by (rule shr_and_ff_eq)
  also have "int n div 2 ^ k = int (n div 2 ^ k)" by (simp add: zdiv_int)
  finally show ?thesis by simp
qed

lemma byte_of_nat_mod: "(of_nat (m mod 256) :: byte) = of_nat m"
  by (simp add: word_of_nat_eq_iff take_bit_eq_mod)

lemma unat_byte_of_nat: "unat (of_nat m :: byte) = m mod 256"
  by (simp add: unat_of_nat)

lemma le4n:
  fixes n :: nat
  assumes "n < 4294967296"
  shows "n mod 256 + 256 * (n div 256 mod 256 + 256 * (n div 65536 mod 256 + 256 * (n div 16777216 mod 256))) = n"
proof -
  have d2: "n div 65536 = n div 256 div 256"
    by (simp add: div_mult2_eq [symmetric])
  have d3: "n div 16777216 = n div 256 div 256 div 256"
    by (simp add: div_mult2_eq [symmetric])
  have "n div 16777216 < 256"
    using assms by (simp add: less_mult_imp_div_less)
  then have s: "n div 256 div 256 div 256 mod 256 = n div 256 div 256 div 256"
    unfolding d3 by simp
  show ?thesis
    unfolding d2 d3 s by simp
qed

lemma le2n:
  fixes n :: nat
  assumes "n < 65536"
  shows "n mod 256 + 256 * (n div 256 mod 256) = n"
proof -
  have "n div 256 < 256"
    using assms by (simp add: less_mult_imp_div_less)
  then show ?thesis by simp
qed

lemma flashBegin_bytes:
  "flashBegin len (int off) =
     [0x02, 0, 0, 0, 0, 0, 0, 0,
      of_nat len, of_nat (len div 256), of_nat (len div 65536), of_nat (len div 16777216),
      of_nat off, of_nat (off div 256), of_nat (off div 65536), of_nat (off div 16777216)]"
  using shr_and_ff_nat [of 0 len] shr_and_ff_nat [of 8 len] shr_and_ff_nat [of 16 len] shr_and_ff_nat [of 24 len]
    shr_and_ff_nat [of 0 off] shr_and_ff_nat [of 8 off] shr_and_ff_nat [of 16 off] shr_and_ff_nat [of 24 off]
  by (simp add: flashBegin_def ROM_LOADER_FLASH_BEGIN_CMD_def)

lemma chunkData_bytes:
  "chunkData chunk = [0x03, of_nat (length chunk), of_nat (length chunk div 256), 0] @ chunk"
  using shr_and_ff_nat [of 0 "length chunk"] shr_and_ff_nat [of 8 "length chunk"]
  by (simp add: chunkData_def ROM_LOADER_FLASH_DATA_CMD_def)

lemma le_value4: "le_value [a, b, c, d] = unat a + 256 * (unat b + 256 * (unat c + 256 * unat d))"
  by (simp add: le_value_def)

lemma le_value2: "le_value [a, b] = unat a + 256 * unat b"
  by (simp add: le_value_def)

lemma le_value_u32:
  assumes "n < 4294967296"
  shows "le_value [of_nat n, of_nat (n div 256), of_nat (n div 65536), of_nat (n div 16777216)] = n"
  unfolding le_value4 unat_byte_of_nat by (rule le4n [OF assms])

text \<open>
  Claim C7. For an image length and an offset that fit in 32 bits, the BEGIN frame has
  16 bytes: the command byte \<open>0x02\<close>, three zero bytes, one zero word (four more zero
  bytes), the image length little-endian in bytes 8 to 11 and the offset little-endian
  in the last four bytes.
\<close>

theorem flashBegin_layout:
  assumes "len < 2 ^ 32" and "0 \<le> offset" and "offset < 2 ^ 32"
  shows "length (flashBegin len offset) = 16 \<and>
         flashBegin len offset = [0x02, 0, 0, 0, 0, 0, 0, 0] @ u32_le len @ u32_le (nat offset)"
proof -
  from assms(2) obtain off where o: "offset = int off"
    using nonneg_int_cases by blast
  show ?thesis
    unfolding o by (simp add: flashBegin_bytes u32_le_def byte_of_nat_mod)
qed

theorem flashBegin_layout_witness:
  "length (flashBegin 300 0x10000) = 16 \<and>
   flashBegin 300 0x10000 = [0x02, 0, 0, 0, 0, 0, 0, 0, 44, 1, 0, 0, 0, 0, 1, 0]"
  using flashBegin_layout [of 300 "0x10000"]
  by (simp add: u32_le_def)

text \<open>
  Claim C8. For an image length and an offset that fit in 32 bits, reading the BEGIN
  frame back gives the image length and the offset it was built from; and for a chunk of
  at most 256 bytes, reading the DATA frame back (command byte \<open>0x03\<close>, two-byte
  little-endian length, a zero byte, the payload) gives the chunk's length and its bytes.
\<close>

theorem framing_round_trip:
  assumes "len < 2 ^ 32" and "0 \<le> offset" and "offset < 2 ^ 32" and "length chunk \<le> 256"
  shows "decodeFlashBegin (flashBegin len offset) = Some (len, offset) \<and>
         decodeFlashData (chunkData chunk) = Some (length chunk, chunk)"
proof -
  from assms(2) obtain off where o: "offset = int off"
    using nonneg_int_cases by blast
  have off: "off < 4294967296" using assms(3) o by simp
  have len: "len < 4294967296" using assms(1) by simp
  have c: "length chunk < 65536" using assms(4) by simp
  have l: "le_value [of_nat (length chunk), of_nat (length chunk div 256)] = length chunk"
    unfolding le_value2 unat_byte_of_nat by (rule le2n [OF c])
  have "decodeFlashBegin (flashBegin len offset) = Some (len, offset)"
    unfolding o
    by (simp add: flashBegin_bytes decodeFlashBegin_def le_value_u32 [OF len] le_value_u32 [OF off])
  moreover have "decodeFlashData (chunkData chunk) = Some (length chunk, chunk)"
    by (simp add: chunkData_bytes decodeFlashData_def l)
  ultimately show ?thesis by simp
qed

theorem framing_round_trip_witness:
  "decodeFlashBegin (flashBegin 300 0x10000) = Some (300, 0x10000) \<and>
   decodeFlashData (chunkData [1, 2, 3]) = Some (3, [1, 2, 3])"
  using framing_round_trip [of 300 "0x10000" "[1, 2, 3]"]
  by simp

section \<open>Evaluating the numbers\<close>

text \<open>
  The recursive equations of \<open>bit_length\<close> and \<open>toStringRadix\<close>, split by their
  condition so that they rewrite a numeral and leave a variable alone.
\<close>

lemma bit_length_0: "bit_length 0 = 0"
  by (subst bit_length.simps) simp

lemma bit_length_pos: "0 < n \<Longrightarrow> bit_length n = Suc (bit_length (n div 2))"
  by (subst bit_length.simps) simp

lemma toStringRadix_digit: "n < radix \<Longrightarrow> toStringRadix radix n = [digit_char n]"
  by (subst toStringRadix.simps) simp

lemma toStringRadix_more:
  "radix \<le> n \<Longrightarrow> 2 \<le> radix \<Longrightarrow>
   toStringRadix radix n = toStringRadix radix (n div radix) @ [digit_char (n mod radix)]"
  by (subst toStringRadix.simps) simp

lemmas double_eval = js_percentage_def js_div_def js_times_100_def Math_round_def to_double_def
  scale2_def round_half_even_def Let_def bit_length_0 bit_length_pos

lemma js_percentage_odd: "js_percentage 256 257 = 100"
  by (simp add: double_eval)

text \<open>
  A tie that double precision breaks downwards: \<open>5888 / 10240 * 100\<close> is
  \<open>57.49999999999999\<close> in doubles and \<open>57.5\<close> in exact arithmetic.
\<close>

lemma js_percentage_tie: "js_percentage 5888 10240 = 57"
  by (simp add: double_eval)

lemma showNat_115200: "showNat 115200 = ''115200''"
  by (simp add: showNat_def toStringRadix_digit toStringRadix_more digit_char_def)

lemma toString16_0x10000: "toString16 0x10000 = ''10000''"
  by (simp add: toString16_def toStringRadix_digit toStringRadix_more digit_char_def)

lemma percentage_of_one: "Math_round (js_times_100 (4503599627370496, - 52)) = 100"
  by (simp add: double_eval)

lemma to_double_self: "0 < n \<Longrightarrow> to_double n n = (4503599627370496, - 52)"
  by (simp add: to_double_def scale2_def round_half_even_def Let_def)

lemma js_percentage_full: "0 < n \<Longrightarrow> js_percentage n n = 100"
  by (simp add: js_percentage_def js_div_def to_double_self percentage_of_one)

section \<open>Outcomes of the writes\<close>

lemma write_bytes_quiet:
  "portRef e = Some p \<Longrightarrow> writable p \<Longrightarrow> script w = [] \<Longrightarrow>
   write_bytes d e w = (None, w\<lparr>sent := sent w @ [d]\<rparr>)"
  by (simp add: write_bytes_def)

lemma write_bytes_closed:
  "portRef e = Some p \<Longrightarrow> \<not> writable p \<Longrightarrow>
   write_bytes d e w = (Some (ErrorObj ''Port not writable''), w)"
  by (simp add: write_bytes_def)

lemma write_bytes_NoneD:
  "write_bytes d e w = (None, w') \<Longrightarrow>
   portRef e \<noteq> None \<and> sent w' = sent w @ [d] \<and> clock w' = clock w"
  by (auto simp: write_bytes_def split: option.splits if_splits list.splits)

lemma flashLoop_empty: "flashLoop [] i e w = (None, e, w)"
  by (subst flashLoop.simps) simp

lemma flashStart_NoneD:
  assumes "flashStart fd offset e w = (None, e', w')"
  shows "sent w' = sent w @ [flashBegin (length fd) offset] \<and>
         progress (state e') = progress (state e) \<and>
         isFlashing (state e') = isFlashing (state e) \<and>
         error (state e') = error (state e) \<and>
         portRef e' = portRef e"
  using assms
  by (auto simp: flashStart_def Let_def delay_def split: prod.splits option.splits
      dest!: write_bytes_NoneD)

lemma flashFinish_NoneD:
  assumes "flashFinish fd e w = (None, e', w')"
  shows "sent w' = sent w @ [flashEnd] \<and>
         progress (state e') = \<lparr>current = length fd, total = length fd, percentage = 100\<rparr> \<and>
         isFlashing (state e') = False \<and>
         error (state e') = error (state e)"
  using assms
  by (auto simp: flashFinish_def Let_def delay_def split: prod.splits option.splits
      dest!: write_bytes_NoneD)

lemma flashTry_empty_NoneD:
  assumes "flashTry [] offset e w = (None, e', w')"
  shows "sent w' = sent w @ [flashBegin 0 offset, flashEnd] \<and>
         progress (state e') = \<lparr>current = 0, total = 0, percentage = 100\<rparr> \<and>
         isFlashing (state e') = False \<and>
         error (state e') = error (state e)"
proof -
  obtain r1 e1 w1 where s: "flashStart [] offset e w = (r1, e1, w1)"
    by (cases "flashStart [] offset e w") auto
  with assms have r1: "r1 = None" and f: "flashFinish [] e1 w1 = (None, e', w')"
    by (auto simp: flashTry_def flashLoop_empty split: option.splits)
  from flashStart_NoneD [OF s [unfolded r1]] flashFinish_NoneD [OF f]
  show ?thesis by simp
qed

lemma openEngine_port: "portRef openEngine = Some \<lparr>readable = True, writable = True\<rparr>"
  by (simp add: openEngine_def connect_def initialEngine_def)

lemma closedEngine_port: "portRef closedEngine = Some \<lparr>readable = False, writable = False\<rparr>"
  by (simp add: closedEngine_def disconnect_def openEngine_port Let_def)

lemma busyEngine_port: "portRef busyEngine = Some \<lparr>readable = True, writable = True\<rparr>"
  by (simp add: busyEngine_def flashInit_def openEngine_port)

lemma flashFirmware_empty_quiet:
  assumes "portRef e = Some p" "writable p" "script w = []"
  shows "fst (flashFirmware [] off e w) = None"
proof -
  let ?offset = "case off of None \<Rightarrow> 0x10000 | Some x \<Rightarrow> x"
  let ?e3 = "addLog (''Flash offset: 0x'' @ toString16 ?offset) (Some Info)
       (addLog (''File size: '' @ showNat (length ([]::Uint8Array)) @ '' bytes'') (Some Info)
          (addLog ''Starting firmware flash...'' (Some Info) (flashInit [] e) w) w) w"
  have p3: "portRef ?e3 = Some p" using assms(1) by (simp add: flashInit_def)
  have w1: "write_bytes (flashBegin (length ([]::Uint8Array)) ?offset) ?e3 w =
              (None, w\<lparr>sent := sent w @ [flashBegin (length ([]::Uint8Array)) ?offset]\<rparr>)"
    by (rule write_bytes_quiet [OF p3 assms(2,3)])
  let ?w1 = "delay 100 (w\<lparr>sent := sent w @ [flashBegin (length ([]::Uint8Array)) ?offset]\<rparr>)"
  have s: "flashStart [] ?offset (flashInit [] e) w = (None, ?e3, ?w1)"
    unfolding flashStart_def Let_def w1 by simp
  have sc: "script ?w1 = []" using assms(3) by (simp add: delay_def)
  have w2: "write_bytes flashEnd ?e3 ?w1 = (None, ?w1\<lparr>sent := sent ?w1 @ [flashEnd]\<rparr>)"
    by (rule write_bytes_quiet [OF p3 assms(2) sc])
  have f: "fst (flashFinish [] ?e3 ?w1) = None"
    unfolding flashFinish_def w2 by (simp add: Let_def)
  have "fst (flashTry [] ?offset (flashInit [] e) w) = None"
    unfolding flashTry_def s using f by (simp add: flashLoop_empty split: prod.splits option.splits)
  then show ?thesis
    using assms(1) by (auto simp: flashFirmware_def Let_def split: prod.splits option.splits)
qed

lemma length_slice_last_eq: "length (slice_last n xs) = min n (length xs)"
  by (simp add: slice_last_def)

section \<open>An empty image\<close>

lemma flashFirmware_empty_result:
  assumes "fst (flashFirmware [] off e w) = None"
  shows "sent (snd (snd (flashFirmware [] off e w))) =
           sent w @ [flashBegin 0 (case off of None \<Rightarrow> 0x10000 | Some x \<Rightarrow> x), flashEnd] \<and>
         progress (state (fst (snd (flashFirmware [] off e w)))) =
           \<lparr>current = 0, total = 0, percentage = 100\<rparr> \<and>
         isFlashing (state (fst (snd (flashFirmware [] off e w)))) = False"
proof -
  let ?offset = "case off of None \<Rightarrow> 0x10000 | Some x \<Rightarrow> x"
  obtain r1 e1 w1 where t: "flashTry [] ?offset (flashInit [] e) w = (r1, e1, w1)"
    by (cases "flashTry [] ?offset (flashInit [] e) w") auto
  from assms have p: "portRef e \<noteq> None"
    by (auto simp: flashFirmware_def Let_def split: if_splits)
  with assms t have r1: "r1 = None"
    by (auto simp: flashFirmware_def Let_def split: option.splits)
  have res: "flashFirmware [] off e w = (None, e1, w1)"
    using p t r1 by (simp add: flashFirmware_def Let_def)
  from flashTry_empty_NoneD [OF t [unfolded r1]] show ?thesis
    unfolding res by simp
qed

text \<open>
  Claim C3, as the code has it. A \<^verbatim>\<open>flashFirmware\<close> of an image of 0 bytes that
  succeeds has sent exactly two frames, the BEGIN frame, whose length field (bytes 8 to
  11) is zero, and the END frame, so no DATA frame; the flashing flag is down; and the
  final progress is \<open>{current = 0, total = 0, percentage = 100}\<close>: the success path
  sets the percentage to 100 whatever the length.
\<close>

theorem flash_empty_image:
  assumes "fst (flashFirmware [] off e w) = None"
  shows "sent (snd (snd (flashFirmware [] off e w))) =
           sent w @ [flashBegin 0 (case off of None \<Rightarrow> 0x10000 | Some x \<Rightarrow> x), flashEnd] \<and>
         take 4 (drop 8 (flashBegin 0 (case off of None \<Rightarrow> 0x10000 | Some x \<Rightarrow> x))) = [0, 0, 0, 0] \<and>
         progress (state (fst (snd (flashFirmware [] off e w)))) =
           \<lparr>current = 0, total = 0, percentage = 100\<rparr> \<and>
         isFlashing (state (fst (snd (flashFirmware [] off e w)))) = False"
proof -
  have "take 4 (drop 8 (flashBegin 0 (case off of None \<Rightarrow> 0x10000 | Some x \<Rightarrow> x))) = [0, 0, 0, 0]"
    using shr_and_ff_nat [of 0 0] shr_and_ff_nat [of 8 0] shr_and_ff_nat [of 16 0]
      shr_and_ff_nat [of 24 0]
    by (simp add: flashBegin_def)
  with flashFirmware_empty_result [OF assms] show ?thesis by simp
qed

theorem flash_empty_image_witness:
  "progress (state (fst (snd (flashFirmware [] None openEngine quietWorld)))) =
     \<lparr>current = 0, total = 0, percentage = 100\<rparr> \<and>
   sent (snd (snd (flashFirmware [] None openEngine quietWorld))) =
     [flashBegin 0 0x10000, flashEnd]"
  using flash_empty_image [OF flashFirmware_empty_quiet [OF openEngine_port], of quietWorld None]
  by (simp add: quietWorld_def)

text \<open>
  The claim as the spec words it fails on the engine that \<^verbatim>\<open>connect\<close> opened: the
  flash of the empty image succeeds and the final percentage is not 0.
\<close>

theorem flash_empty_image_counterexample:
  "fst (flashFirmware [] None openEngine quietWorld) = None \<and>
   percentage (progress (state (fst (snd (flashFirmware [] None openEngine quietWorld))))) \<noteq> 0"
proof -
  have ok: "fst (flashFirmware [] None openEngine quietWorld) = None"
    by (rule flashFirmware_empty_quiet [OF openEngine_port]) (simp_all add: quietWorld_def)
  obtain r1 e1 w1 where t: "flashTry [] 0x10000 (flashInit [] openEngine) quietWorld = (r1, e1, w1)"
    by (cases "flashTry [] 0x10000 (flashInit [] openEngine) quietWorld") auto
  from ok t have r1: "r1 = None"
    by (auto simp: flashFirmware_def Let_def openEngine_port split: option.splits)
  have res: "flashFirmware [] None openEngine quietWorld = (None, e1, w1)"
    using t r1 by (simp add: flashFirmware_def Let_def openEngine_port)
  from flashTry_empty_NoneD [OF t [unfolded r1]] show ?thesis
    unfolding res by simp
qed

section \<open>A call while a flash is in progress\<close>

text \<open>
  Claim C2, as the code has it. \<^verbatim>\<open>flashFirmware\<close> never reads the flashing flag: a
  call made while the flag is up is rejected before any write exactly when no port is
  held (the only guard), with the engine left as it was; with a port held it runs exactly
  as the same call made with the flag down, writes included.
\<close>

theorem flashFirmware_ignores_flashing:
  "flashFirmware fileData off (e\<lparr>state := (state e)\<lparr>isFlashing := True\<rparr>\<rparr>) w =
     (if portRef e = None
      then (Some (ErrorObj ''Not connected to device''), e\<lparr>state := (state e)\<lparr>isFlashing := True\<rparr>\<rparr>, w)
      else flashFirmware fileData off (e\<lparr>state := (state e)\<lparr>isFlashing := False\<rparr>\<rparr>) w)"
  by (simp add: flashFirmware_def flashInit_def Let_def)

text \<open>
  The claim as the spec words it fails on an engine whose flag is up: the second call is
  accepted, resolves, and has written a BEGIN and an END frame of its own.
\<close>

theorem flash_while_flashing_counterexample:
  "isFlashing (state busyEngine) \<and>
   fst (flashFirmware [] None busyEngine quietWorld) = None \<and>
   sent (snd (snd (flashFirmware [] None busyEngine quietWorld))) = [flashBegin 0 0x10000, flashEnd]"
proof -
  have ok: "fst (flashFirmware [] None busyEngine quietWorld) = None"
    by (rule flashFirmware_empty_quiet [OF busyEngine_port]) (simp_all add: quietWorld_def)
  have "isFlashing (state busyEngine)"
    by (simp add: busyEngine_def flashInit_def)
  with ok flashFirmware_empty_result [OF ok] show ?thesis
    by (simp add: quietWorld_def)
qed

section \<open>A call after disconnect\<close>

text \<open>
  With no port held the guard throws before anything else happens: nothing is written
  and the engine is as it was.
\<close>

lemma flashFirmware_no_port:
  "portRef e = None \<Longrightarrow>
   flashFirmware fileData off e w = (Some (ErrorObj ''Not connected to device''), e, w)"
  by (simp add: flashFirmware_def)

lemma flashFirmware_closed:
  assumes "portRef e = Some p" and "\<not> writable p"
  shows "flashFirmware fd off e w =
    (Some (ErrorObj ''Port not writable''),
     addLog ''Flash error: Port not writable'' (Some Error)
       ((addLog (''Flash offset: 0x'' @ toString16 (case off of None \<Rightarrow> 0x10000 | Some x \<Rightarrow> x)) (Some Info)
          (addLog (''File size: '' @ showNat (length fd) @ '' bytes'') (Some Info)
             (addLog ''Starting firmware flash...'' (Some Info) (flashInit fd e) w) w) w)
        \<lparr>state := (state (addLog (''Flash offset: 0x'' @ toString16 (case off of None \<Rightarrow> 0x10000 | Some x \<Rightarrow> x)) (Some Info)
          (addLog (''File size: '' @ showNat (length fd) @ '' bytes'') (Some Info)
             (addLog ''Starting firmware flash...'' (Some Info) (flashInit fd e) w) w) w))
           \<lparr>isFlashing := False, error := Some ''Port not writable''\<rparr>\<rparr>) w,
     w)"
proof -
  let ?offset = "case off of None \<Rightarrow> 0x10000 | Some x \<Rightarrow> x"
  let ?e3 = "addLog (''Flash offset: 0x'' @ toString16 ?offset) (Some Info)
          (addLog (''File size: '' @ showNat (length fd) @ '' bytes'') (Some Info)
             (addLog ''Starting firmware flash...'' (Some Info) (flashInit fd e) w) w) w"
  have p3: "portRef ?e3 = Some p" using assms(1) by (simp add: flashInit_def)
  have w1: "write_bytes (flashBegin (length fd) ?offset) ?e3 w = (Some (ErrorObj ''Port not writable''), w)"
    by (rule write_bytes_closed [OF p3 assms(2)])
  have s: "flashStart fd ?offset (flashInit fd e) w = (Some (ErrorObj ''Port not writable''), ?e3, w)"
    unfolding flashStart_def Let_def w1 by simp
  have t: "flashTry fd ?offset (flashInit fd e) w = (Some (ErrorObj ''Port not writable''), ?e3, w)"
    unfolding flashTry_def s by simp
  show ?thesis
    unfolding flashFirmware_def Let_def t using assms(1) by simp
qed

text \<open>
  Claim C1, at the input where the code leaves it. After \<^verbatim>\<open>connect\<close> and
  \<^verbatim>\<open>disconnect\<close> the connected flag is down, yet \<^verbatim>\<open>portRef\<close> still holds the closed
  port, so the guard of \<^verbatim>\<open>flashFirmware\<close> lets the call in: for every image and offset it
  rejects with \<open>Port not writable\<close> rather than \<open>Not connected to device\<close>, and the
  state is not left as it was: the error field is set and four entries are appended to
  the log. Nothing reaches the transport.
\<close>

theorem flash_after_disconnect:
  "isConnected (state closedEngine) = False \<and>
   fst (flashFirmware fileData off closedEngine quietWorld) = Some (ErrorObj ''Port not writable'') \<and>
   sent (snd (snd (flashFirmware fileData off closedEngine quietWorld))) = [] \<and>
   error (state closedEngine) = None \<and>
   error (state (fst (snd (flashFirmware fileData off closedEngine quietWorld)))) =
     Some ''Port not writable'' \<and>
   length (logs (state closedEngine)) = 2 \<and>
   length (logs (state (fst (snd (flashFirmware fileData off closedEngine quietWorld))))) = 6"
proof -
  have c: "isConnected (state closedEngine) = False" "error (state closedEngine) = None"
    "length (logs (state closedEngine)) = 2"
    by (simp_all add: closedEngine_def disconnect_def openEngine_def connect_def initialEngine_def
        initialState_def Let_def logs_addLog length_slice_last_eq)
  have f: "length (logs (state (flashInit fileData closedEngine))) = 2"
    using c(3) by (simp add: flashInit_def)
  have w: "\<not> writable \<lparr>readable = False, writable = False\<rparr>" by simp
  show ?thesis
    unfolding flashFirmware_closed [OF closedEngine_port w]
    using c f by (simp add: logs_addLog length_slice_last_eq quietWorld_def)
qed

section \<open>Progress within a job\<close>

lemma flashChunk_NoneD:
  "flashChunk fd i e w = (None, e', w') \<Longrightarrow>
   progress (state e') =
     \<lparr>current = min (i + chunkSize) (length fd), total = length fd,
      percentage = js_percentage (min (i + chunkSize) (length fd)) (length fd)\<rparr>"
  by (auto simp: flashChunk_def Let_def split: prod.splits option.splits)

lemma loop_head_progress:
  "loop_head fd i e w \<Longrightarrow>
   current (progress (state e)) = min i (length fd) \<and> total (progress (state e)) = length fd"
proof (induction rule: loop_head.induct)
  case (enter offset e w e' w')
  from flashStart_NoneD [OF enter] show ?case
    by (simp add: flashInit_def)
next
  case (turn i e w e' w')
  from flashChunk_NoneD [OF turn.hyps(3)] show ?case
    by simp
qed

text \<open>
  Claim C5, as the code has it. At a head of the loop, with index \<open>i\<close> below the image
  length, a turn that does not throw leaves \<open>current = min (previous current + 256) total\<close>,
  \<open>total\<close> the image length and \<open>percentage\<close> the double-precision
  \<^verbatim>\<open>Math.round((current / total) * 100)\<close>; \<open>current\<close> has not decreased and does not
  exceed \<open>total\<close>; and when \<open>current\<close> has reached \<open>total\<close> the percentage is 100. The
  converse is not claimed: the rounding gives 100 from 99.5 percent on.
\<close>

theorem progress_after_chunk:
  assumes "loop_head fileData i e w" and "i < length fileData"
    and "flashChunk fileData i e w = (None, e', w')"
  shows "current (progress (state e')) =
           min (current (progress (state e)) + chunkSize) (total (progress (state e'))) \<and>
         total (progress (state e')) = length fileData \<and>
         percentage (progress (state e')) =
           js_percentage (current (progress (state e'))) (total (progress (state e'))) \<and>
         current (progress (state e)) \<le> current (progress (state e')) \<and>
         current (progress (state e')) \<le> total (progress (state e')) \<and>
         (current (progress (state e')) = total (progress (state e')) \<longrightarrow>
            percentage (progress (state e')) = 100)"
proof -
  from loop_head_progress [OF assms(1)] assms(2)
  have before: "current (progress (state e)) = i" by simp
  have after: "progress (state e') =
     \<lparr>current = min (i + chunkSize) (length fileData), total = length fileData,
      percentage = js_percentage (min (i + chunkSize) (length fileData)) (length fileData)\<rparr>"
    by (rule flashChunk_NoneD [OF assms(3)])
  have pos: "0 < length fileData" using assms(2) by (cases fileData) simp_all
  show ?thesis
    unfolding after before using js_percentage_full [OF pos] assms(2) by auto
qed

lemma flashStart_quiet:
  assumes "portRef e = Some p" "writable p" "script w = []"
  shows "fst (flashStart fd offset e w) = None \<and>
         portRef (fst (snd (flashStart fd offset e w))) = Some p \<and>
         script (snd (snd (flashStart fd offset e w))) = []"
proof -
  let ?e3 = "addLog (''Flash offset: 0x'' @ toString16 offset) (Some Info)
       (addLog (''File size: '' @ showNat (length fd) @ '' bytes'') (Some Info)
          (addLog ''Starting firmware flash...'' (Some Info) e w) w) w"
  have p3: "portRef ?e3 = Some p" using assms(1) by simp
  have w1: "write_bytes (flashBegin (length fd) offset) ?e3 w =
              (None, w\<lparr>sent := sent w @ [flashBegin (length fd) offset]\<rparr>)"
    by (rule write_bytes_quiet [OF p3 assms(2,3)])
  show ?thesis
    unfolding flashStart_def Let_def w1 using assms by (simp add: delay_def)
qed

lemma flashChunk_quiet:
  assumes "portRef e = Some p" "writable p" "script w = []"
  shows "fst (flashChunk fd i e w) = None"
  unfolding flashChunk_def Let_def write_bytes_quiet [OF assms] by simp

lemma loopEntry_facts:
  "portRef (fst (loopEntry fd)) = Some \<lparr>readable = True, writable = True\<rparr> \<and>
   script (snd (loopEntry fd)) = [] \<and>
   flashStart fd 0x10000 (flashInit fd openEngine) quietWorld =
     (None, fst (loopEntry fd), snd (loopEntry fd))"
proof -
  have p: "portRef (flashInit fd openEngine) = Some \<lparr>readable = True, writable = True\<rparr>"
    by (simp add: flashInit_def openEngine_port)
  have "writable \<lparr>readable = True, writable = True\<rparr>" "script quietWorld = []"
    by (simp_all add: quietWorld_def)
  from flashStart_quiet [OF p this, of fd "0x10000"] show ?thesis
    by (simp add: loopEntry_def prod_eq_iff)
qed

lemma loopEntry_head: "loop_head fd 0 (fst (loopEntry fd)) (snd (loopEntry fd))"
  using loopEntry_facts [of fd] by (blast intro: loop_head.enter)

lemma loopEntry_chunk:
  "flashChunk fd i (fst (loopEntry fd)) (snd (loopEntry fd)) =
     (None, fst (snd (flashChunk fd i (fst (loopEntry fd)) (snd (loopEntry fd)))),
            snd (snd (flashChunk fd i (fst (loopEntry fd)) (snd (loopEntry fd)))))"
proof -
  have "fst (flashChunk fd i (fst (loopEntry fd)) (snd (loopEntry fd))) = None"
    using loopEntry_facts [of fd] by (intro flashChunk_quiet [where p = "\<lparr>readable = True, writable = True\<rparr>"]) simp_all
  then show ?thesis by (simp add: prod_eq_iff)
qed

theorem progress_after_chunk_witness:
  "current (progress (state (fst (snd (flashChunk [1, 2, 3] 0 (fst (loopEntry [1, 2, 3]))
      (snd (loopEntry [1, 2, 3]))))))) = 3 \<and>
   percentage (progress (state (fst (snd (flashChunk [1, 2, 3] 0 (fst (loopEntry [1, 2, 3]))
      (snd (loopEntry [1, 2, 3]))))))) = 100"
proof -
  let ?p = "progress (state (fst (loopEntry [1, 2, 3])))"
  let ?p' = "progress (state (fst (snd (flashChunk [1, 2, 3] 0 (fst (loopEntry [1, 2, 3]))
      (snd (loopEntry [1, 2, 3]))))))"
  have "(0::nat) < length [1, 2, 3 :: byte]" by simp
  from progress_after_chunk [where fileData = "[1, 2, 3]" and i = 0,
      OF loopEntry_head this loopEntry_chunk]
  have a: "current ?p' = min (current ?p + chunkSize) (total ?p')"
    and b: "total ?p' = length [1, 2, 3 :: byte]"
    and c: "current ?p' = total ?p' \<longrightarrow> percentage ?p' = 100"
    by blast+
  have "current ?p' = 3"
    unfolding a b by (simp add: chunkSize_def)
  with b c show ?thesis by simp
qed

text \<open>
  The claim as the spec words it fails on an image of 257 bytes: after the first chunk
  \<open>current\<close> is 256, \<open>total\<close> is 257, and the percentage is already 100.
\<close>

theorem progress_after_chunk_counterexample:
  "loop_head oddImage 0 (fst (loopEntry oddImage)) (snd (loopEntry oddImage)) \<and>
   fst (flashChunk oddImage 0 (fst (loopEntry oddImage)) (snd (loopEntry oddImage))) = None \<and>
   percentage (progress (state (fst (snd (flashChunk oddImage 0 (fst (loopEntry oddImage))
      (snd (loopEntry oddImage))))))) = 100 \<and>
   current (progress (state (fst (snd (flashChunk oddImage 0 (fst (loopEntry oddImage))
      (snd (loopEntry oddImage))))))) \<noteq>
   total (progress (state (fst (snd (flashChunk oddImage 0 (fst (loopEntry oddImage))
      (snd (loopEntry oddImage)))))))"
proof -
  have l: "length oddImage = 257" by (simp add: oddImage_def)
  have c: "flashChunk oddImage 0 (fst (loopEntry oddImage)) (snd (loopEntry oddImage)) =
     (None, fst (snd (flashChunk oddImage 0 (fst (loopEntry oddImage)) (snd (loopEntry oddImage)))),
            snd (snd (flashChunk oddImage 0 (fst (loopEntry oddImage)) (snd (loopEntry oddImage)))))"
    by (rule loopEntry_chunk)
  have n: "fst (flashChunk oddImage 0 (fst (loopEntry oddImage)) (snd (loopEntry oddImage))) = None"
    using c by (metis fst_conv)
  from flashChunk_NoneD [OF c] loopEntry_head [of oddImage] n show ?thesis
    by (simp add: l chunkSize_def js_percentage_odd)
qed

end
